theory Spec2Isabelle
  imports Main
begin

section \<open>The grid renderer of Part2/print_knights.py\<close>

text \<open>
  The script fixes \<open>N = 2\<close>, derives the extent \<open>B = 4 * N + 5\<close>, allocates a
  \<open>B\<close> by \<open>B\<close> matrix \<open>board\<close> filled with \<open>None\<close>, and then runs two nested
  \<open>for\<close> loops over \<open>range(B)\<close>. Each inner iteration stores one character in
  \<open>board[r][c]\<close> and appends the same character to the string \<open>row\<close>; each outer
  iteration prints \<open>row\<close>. The model below takes the literal \<open>N\<close> as a parameter.
  Python integers are \<open>int\<close>; \<open>%\<close> and \<open>//\<close> are floor modulo and floor division, which
  is what \<open>mod\<close> and \<open>div\<close> on \<open>int\<close> compute, except that Python raises on a zero
  divisor where HOL returns a value.
\<close>

subsection \<open>Python primitives\<close>

datatype py_error = ZeroDivisionError | IndexError

definition py_mod :: "int \<Rightarrow> int \<Rightarrow> py_error + int" where
  "py_mod a b = (if b = 0 then Inl ZeroDivisionError else Inr (a mod b))"

definition py_floordiv :: "int \<Rightarrow> int \<Rightarrow> py_error + int" where
  "py_floordiv a b = (if b = 0 then Inl ZeroDivisionError else Inr (a div b))"

definition py_range :: "int \<Rightarrow> int list" where
  \<comment> \<open>\<open>range(n)\<close>: the integers from 0 up to \<open>n - 1\<close>, empty when \<open>n \<le> 0\<close>.\<close>
  "py_range n = map int [0..<nat n]"

definition py_index :: "'a list \<Rightarrow> int \<Rightarrow> py_error + nat" where
  \<comment> \<open>The position a subscript denotes: negative subscripts count from the end,
      anything outside the list raises.\<close>
  "py_index xs i =
     (let n = int (length xs); j = (if i < 0 then n + i else i)
      in if 0 \<le> j \<and> j < n then Inr (nat j) else Inl IndexError)"

subsection \<open>Program state\<close>

text \<open>
  \<open>board\<close> and \<open>row\<close> are the script's two variables and \<open>stdout\<close> is the list of
  lines that \<open>print\<close> has written so far (each \<open>print(row)\<close> writes \<open>row\<close> and a
  newline). \<open>assigned\<close> is a ghost field: the log of the subscripts \<open>(r, c)\<close> of the
  assignments \<open>board[r][c] = ...\<close> executed so far, in order. The script has no such
  variable and nothing in the model reads it.
\<close>

record machine =
  board :: "char option list list"
  row :: string
  stdout :: "string list"
  assigned :: "(int \<times> int) list"

definition board_assign ::
  "char option list list \<Rightarrow> int \<Rightarrow> int \<Rightarrow> char \<Rightarrow> py_error + char option list list" where
  \<comment> \<open>\<open>board[r][c] = ch\<close>: subscript the outer list, then store into that row.\<close>
  "board_assign b r c ch =
     (case py_index b r of
        Inl e \<Rightarrow> Inl e
      | Inr i \<Rightarrow>
          (case py_index (b ! i) c of
             Inl e \<Rightarrow> Inl e
           | Inr j \<Rightarrow> Inr (b[i := (b ! i)[j := Some ch]])))"

definition put :: "int \<Rightarrow> int \<Rightarrow> char \<Rightarrow> machine \<Rightarrow> py_error + machine" where
  \<comment> \<open>The two statements every branch of the loop body ends with:
      \<open>board[r][c] = ch\<close> and \<open>row += ch\<close>.\<close>
  "put r c ch s =
     (case board_assign (board s) r c ch of
        Inl e \<Rightarrow> Inl e
      | Inr b \<Rightarrow>
          Inr (s\<lparr>board := b, row := row s @ [ch], assigned := assigned s @ [(r, c)]\<rparr>))"

subsection \<open>The loop body and the two loops\<close>

definition cell_body :: "int \<Rightarrow> int \<Rightarrow> int \<Rightarrow> machine \<Rightarrow> py_error + machine" where
  \<comment> \<open>Lines 7 to 24. The conditions are evaluated in the order of the source, and
      \<open>and\<close> evaluates its right operand only when the left one holds.\<close>
  "cell_body N r c s =
     (case py_mod r (N + 1) of
        Inl e \<Rightarrow> Inl e
      | Inr rm \<Rightarrow>
          if rm = 0 then
            (case py_mod c (N + 1) of
               Inl e \<Rightarrow> Inl e
             | Inr cm \<Rightarrow>
                 if cm > 0 then put r c CHR ''-'' s
                 else put r c CHR ''+'' s)
          else
            (case py_mod c (N + 1) of
               Inl e \<Rightarrow> Inl e
             | Inr cm \<Rightarrow>
                 if cm = 0 then put r c CHR ''|'' s
                 else
                   (case py_floordiv r (N + 1) of
                      Inl e \<Rightarrow> Inl e
                    | Inr rd \<Rightarrow>
                        if rd = 3 then
                          (case py_floordiv c (N + 1) of
                             Inl e \<Rightarrow> Inl e
                           | Inr cd \<Rightarrow>
                               if cd = 0 then put r c CHR ''N'' s
                               else put r c CHR '' '' s)
                        else put r c CHR '' '' s)))"

fun col_loop :: "int \<Rightarrow> int \<Rightarrow> int list \<Rightarrow> machine \<Rightarrow> py_error + machine" where
  "col_loop N r [] s = Inr s"
| "col_loop N r (c # cs) s =
     (case cell_body N r c s of
        Inl e \<Rightarrow> Inl e
      | Inr s' \<Rightarrow> col_loop N r cs s')"

definition row_body :: "int \<Rightarrow> int \<Rightarrow> int \<Rightarrow> machine \<Rightarrow> py_error + machine" where
  \<comment> \<open>One outer iteration: \<open>row = ""\<close>, the inner loop over \<open>range(B)\<close>, \<open>print(row)\<close>.\<close>
  "row_body N B r s =
     (case col_loop N r (py_range B) (s\<lparr>row := []\<rparr>) of
        Inl e \<Rightarrow> Inl e
      | Inr s' \<Rightarrow> Inr (s'\<lparr>stdout := stdout s' @ [row s']\<rparr>))"

fun row_loop :: "int \<Rightarrow> int \<Rightarrow> int list \<Rightarrow> machine \<Rightarrow> py_error + machine" where
  "row_loop N B [] s = Inr s"
| "row_loop N B (r # rs) s =
     (case row_body N B r s of
        Inl e \<Rightarrow> Inl e
      | Inr s' \<Rightarrow> row_loop N B rs s')"

definition run :: "int \<Rightarrow> machine \<Rightarrow> py_error + machine" where
  \<comment> \<open>Lines 4 to 27: the nested loops, started in any state.\<close>
  "run N s = (let B = 4 * N + 5 in row_loop N B (py_range B) s)"

definition init :: "int \<Rightarrow> machine" where
  \<comment> \<open>The state after line 3: the matrix of \<open>None\<close>; nothing printed. \<open>row\<close> is not
      bound yet in the script; the first outer iteration binds it before any use.\<close>
  "init B =
     \<lparr>board = replicate (nat B) (replicate (nat B) None),
      row = [], stdout = [], assigned = []\<rparr>"

definition render :: "int \<Rightarrow> py_error + machine" where
  \<comment> \<open>The whole script for the literal \<open>N\<close>.\<close>
  "render N = run N (init (4 * N + 5))"

definition stdout_of :: "int \<Rightarrow> py_error + string list" where
  \<comment> \<open>What a complete run leaves on standard output, or the uncaught error.\<close>
  "stdout_of N = (case render N of Inl e \<Rightarrow> Inl e | Inr s \<Rightarrow> Inr (stdout s))"

definition marker_count :: "int \<Rightarrow> py_error + nat" where
  \<comment> \<open>How many characters \<open>N\<close> a complete run prints.\<close>
  "marker_count N =
     (case stdout_of N of
        Inl e \<Rightarrow> Inl e
      | Inr ls \<Rightarrow> Inr (count_list (concat ls) CHR ''N''))"


subsection \<open>The character of a cell\<close>

definition cell_char :: "int \<Rightarrow> int \<Rightarrow> int \<Rightarrow> char" where
  \<comment> \<open>The character that \<open>cell_body\<close> stores at \<open>(r, c)\<close> when no division raises:
      the same tests in the same order, without the state.\<close>
  "cell_char N r c =
     (if r mod (N + 1) = 0 then (if c mod (N + 1) > 0 then CHR ''-'' else CHR ''+'')
      else if c mod (N + 1) = 0 then CHR ''|''
      else if r div (N + 1) = 3 \<and> c div (N + 1) = 0 then CHR ''N''
      else CHR '' '')"

definition grid_line :: "int \<Rightarrow> int \<Rightarrow> int \<Rightarrow> string" where
  "grid_line N B r = map (cell_char N r) (py_range B)"

definition grid :: "int \<Rightarrow> int \<Rightarrow> string list" where
  "grid N B = map (grid_line N B) (py_range B)"

definition rule_4_1 :: "int \<Rightarrow> int \<Rightarrow> int \<Rightarrow> char" where
  \<comment> \<open>The per-cell rule as section 4.1 of the specification words it: a separator
      row holds \<open>+\<close> where the column is a multiple of \<open>N + 1\<close> and \<open>-\<close> elsewhere; a
      content row holds \<open>|\<close> where the column is a multiple of \<open>N + 1\<close>, the marker in
      block-row 3 and block-column 0, and a blank elsewhere.\<close>
  "rule_4_1 N r c =
     (if r mod (N + 1) = 0 then (if c mod (N + 1) = 0 then CHR ''+'' else CHR ''-'')
      else if c mod (N + 1) = 0 then CHR ''|''
      else if r div (N + 1) = 3 \<and> c div (N + 1) = 0 then CHR ''N''
      else CHR '' '')"

definition first_line :: "int \<Rightarrow> py_error + string option" where
  \<comment> \<open>The first line of the output of a complete run, if it prints any.\<close>
  "first_line N =
     (case stdout_of N of
        Inl e \<Rightarrow> Inl e
      | Inr ls \<Rightarrow> Inr (case ls of [] \<Rightarrow> None | l # _ \<Rightarrow> Some l))"

definition separator_pattern :: "int \<Rightarrow> string" where
  \<comment> \<open>\<open>+\<close> then \<open>N\<close> dashes, four times, then the closing \<open>+\<close>.\<close>
  "separator_pattern N =
     concat (replicate 4 (CHR ''+'' # replicate (nat N) CHR ''-'')) @ [CHR ''+'']"

definition board_ok :: "int \<Rightarrow> machine \<Rightarrow> bool" where
  \<comment> \<open>The board is a \<open>B\<close> by \<open>B\<close> matrix, whatever its cells hold.\<close>
  "board_ok B s \<longleftrightarrow>
     length (board s) = nat B \<and> (\<forall>xs \<in> set (board s). length xs = nat B)"

section \<open>The loops compute the grid\<close>

lemma py_index_ok: "0 \<le> i \<Longrightarrow> nat i < length xs \<Longrightarrow> py_index xs i = Inr (nat i)"
  by (simp add: py_index_def Let_def)

lemma put_ok:
  assumes "0 \<le> r" "nat r < length (board s)" "0 \<le> c" "nat c < length (board s ! nat r)"
  shows "put r c ch s =
    Inr (s\<lparr>board := (board s)[nat r := (board s ! nat r)[nat c := Some ch]],
           row := row s @ [ch], assigned := assigned s @ [(r, c)]\<rparr>)"
  using assms by (simp add: put_def board_assign_def py_index_ok)

lemma cell_body_put: "N + 1 \<noteq> 0 \<Longrightarrow> cell_body N r c s = put r c (cell_char N r c) s"
  by (simp add: cell_body_def py_mod_def py_floordiv_def cell_char_def)

lemma cell_body_zero: "cell_body (- 1) r c s = Inl ZeroDivisionError"
  by (simp add: cell_body_def py_mod_def)

lemma fold_update_upt:
  "k \<le> length xs \<Longrightarrow>
   foldl (\<lambda>ys i. ys[nat i := g i]) xs (map int [0..<k]) = map (\<lambda>i. g (int i)) [0..<k] @ drop k xs"
proof (induction k)
  case 0
  then show ?case by simp
next
  case (Suc k)
  then have k: "k < length xs" by simp
  have "(map (\<lambda>i. g (int i)) [0..<k] @ drop k xs)[k := g (int k)]
        = map (\<lambda>i. g (int i)) [0..<k] @ (drop k xs)[0 := g (int k)]"
    by (simp add: list_update_append)
  also have "(drop k xs)[0 := g (int k)] = g (int k) # drop (Suc k) xs"
    using k by (simp add: Cons_nth_drop_Suc [symmetric])
  finally show ?case using Suc by simp
qed

lemma fold_update_range:
  "length xs = nat B \<Longrightarrow>
   foldl (\<lambda>ys i. ys[nat i := g i]) xs (py_range B) = map g (py_range B)"
  using fold_update_upt [of "length xs" xs g] by (simp add: py_range_def comp_def)

lemma col_loop_fold:
  assumes "N + 1 \<noteq> 0" "0 \<le> r" "nat r < length (board s)"
    and "\<forall>c \<in> set cs. 0 \<le> c \<and> nat c < length (board s ! nat r)"
  shows "col_loop N r cs s =
    Inr (s\<lparr>board := (board s)[nat r :=
               foldl (\<lambda>ys c. ys[nat c := Some (cell_char N r c)]) (board s ! nat r) cs],
           row := row s @ map (cell_char N r) cs,
           assigned := assigned s @ map (Pair r) cs\<rparr>)"
  using assms
proof (induction cs arbitrary: s)
  case Nil
  then show ?case by simp
next
  case (Cons c cs)
  let ?s' = "s\<lparr>board := (board s)[nat r := (board s ! nat r)[nat c := Some (cell_char N r c)]],
           row := row s @ [cell_char N r c], assigned := assigned s @ [(r, c)]\<rparr>"
  have step: "cell_body N r c s = Inr ?s'"
    using Cons.prems by (simp add: cell_body_put put_ok)
  have "col_loop N r cs ?s' = Inr (?s'\<lparr>board := (board ?s')[nat r :=
               foldl (\<lambda>ys c. ys[nat c := Some (cell_char N r c)]) (board ?s' ! nat r) cs],
           row := row ?s' @ map (cell_char N r) cs,
           assigned := assigned ?s' @ map (Pair r) cs\<rparr>)"
    using Cons.prems by (intro Cons.IH) simp_all
  then show ?case using step Cons.prems by simp
qed


lemma py_range_nat: "py_range (int (nat B)) = py_range B"
  by (simp add: py_range_def)

lemma length_py_range: "length (py_range B) = nat B"
  by (simp add: py_range_def)

lemma in_py_range: "c \<in> set (py_range B) \<longleftrightarrow> 0 \<le> c \<and> c < B"
  by (auto simp: py_range_def image_iff intro: bexI [of _ "nat c"])

lemma row_body_ok:
  assumes "N + 1 \<noteq> 0" "0 \<le> r" "nat r < length (board s)"
    and len: "length (board s ! nat r) = nat B"
  shows "row_body N B r s =
    Inr (s\<lparr>board := (board s)[nat r := map Some (grid_line N B r)],
           row := grid_line N B r,
           stdout := stdout s @ [grid_line N B r],
           assigned := assigned s @ map (Pair r) (py_range B)\<rparr>)"
proof -
  let ?s0 = "s\<lparr>row := []\<rparr>"
  have cols: "\<forall>c \<in> set (py_range B). 0 \<le> c \<and> nat c < length (board ?s0 ! nat r)"
    using len by (auto simp: in_py_range)
  have "foldl (\<lambda>ys c. ys[nat c := Some (cell_char N r c)]) (board s ! nat r) (py_range B)
        = map (\<lambda>c. Some (cell_char N r c)) (py_range B)"
    using len by (rule fold_update_range)
  then have fold: "foldl (\<lambda>ys c. ys[nat c := Some (cell_char N r c)]) (board s ! nat r) (py_range B)
        = map Some (grid_line N B r)"
    by (simp add: grid_line_def comp_def)
  have "col_loop N r (py_range B) ?s0 =
    Inr (?s0\<lparr>board := (board ?s0)[nat r :=
               foldl (\<lambda>ys c. ys[nat c := Some (cell_char N r c)]) (board ?s0 ! nat r) (py_range B)],
           row := row ?s0 @ map (cell_char N r) (py_range B),
           assigned := assigned ?s0 @ map (Pair r) (py_range B)\<rparr>)"
    using assms(1-3) cols by (intro col_loop_fold) simp_all
  then show ?thesis
    by (simp add: row_body_def fold grid_line_def)
qed

lemma row_loop_fold:
  assumes "N + 1 \<noteq> 0"
    and "\<forall>r \<in> set rs. 0 \<le> r \<and> nat r < length (board s)"
    and "\<forall>xs \<in> set (board s). length xs = nat B"
  shows "row_loop N B rs s =
    Inr (s\<lparr>board := foldl (\<lambda>b r. b[nat r := map Some (grid_line N B r)]) (board s) rs,
           row := (if rs = [] then row s else grid_line N B (last rs)),
           stdout := stdout s @ map (grid_line N B) rs,
           assigned := assigned s @ concat (map (\<lambda>r. map (Pair r) (py_range B)) rs)\<rparr>)"
  using assms
proof (induction rs arbitrary: s)
  case Nil
  then show ?case by simp
next
  case (Cons r rs)
  let ?s' = "s\<lparr>board := (board s)[nat r := map Some (grid_line N B r)],
           row := grid_line N B r,
           stdout := stdout s @ [grid_line N B r],
           assigned := assigned s @ map (Pair r) (py_range B)\<rparr>"
  have r: "0 \<le> r" "nat r < length (board s)"
    using Cons.prems by simp_all
  then have "length (board s ! nat r) = nat B"
    using Cons.prems(3) by simp
  then have step: "row_body N B r s = Inr ?s'"
    using Cons.prems(1) r by (rule row_body_ok [rotated 3])
  have rows: "\<forall>xs \<in> set (board ?s'). length xs = nat B"
  proof
    fix xs assume "xs \<in> set (board ?s')"
    then have "xs \<in> insert (map Some (grid_line N B r)) (set (board s))"
      using set_update_subset_insert [of "board s" "nat r"] by auto
    then show "length xs = nat B"
      using Cons.prems(3) by (auto simp: grid_line_def length_py_range)
  qed
  have "row_loop N B rs ?s' =
    Inr (?s'\<lparr>board := foldl (\<lambda>b r. b[nat r := map Some (grid_line N B r)]) (board ?s') rs,
           row := (if rs = [] then row ?s' else grid_line N B (last rs)),
           stdout := stdout ?s' @ map (grid_line N B) rs,
           assigned := assigned ?s' @ concat (map (\<lambda>r. map (Pair r) (py_range B)) rs)\<rparr>)"
    using Cons.prems(1) _ rows
  proof (rule Cons.IH)
    show "\<forall>r \<in> set rs. 0 \<le> r \<and> nat r < length (board ?s')"
      using Cons.prems(2) by simp
  qed
  then show ?case using step by simp
qed

lemma concat_pairs: "concat (map (\<lambda>r. map (Pair r) ys) xs) = List.product xs ys"
  by (induction xs) simp_all

lemma last_py_range: "0 < B \<Longrightarrow> last (py_range B) = B - 1"
  by (simp add: py_range_def last_map last_upt nat_diff_distrib)

lemma py_range_empty: "py_range B = [] \<longleftrightarrow> B \<le> 0"
  by (simp add: py_range_def)

lemma run_ok:
  assumes N: "0 \<le> N"
    and len: "length (board s) = nat (4 * N + 5)"
    and rows: "\<forall>xs \<in> set (board s). length xs = nat (4 * N + 5)"
  shows "run N s =
    Inr (s\<lparr>board := map (map Some) (grid N (4 * N + 5)),
           row := grid_line N (4 * N + 5) (4 * N + 4),
           stdout := stdout s @ grid N (4 * N + 5),
           assigned := assigned s @ List.product (py_range (4 * N + 5)) (py_range (4 * N + 5))\<rparr>)"
proof -
  let ?B = "4 * N + 5"
  have "foldl (\<lambda>b r. b[nat r := map Some (grid_line N ?B r)]) (board s) (py_range ?B)
        = map (\<lambda>r. map Some (grid_line N ?B r)) (py_range ?B)"
    using len by (rule fold_update_range)
  then have fold: "foldl (\<lambda>b r. b[nat r := map Some (grid_line N ?B r)]) (board s) (py_range ?B)
        = map (map Some) (grid N ?B)"
    by (simp add: grid_def comp_def)
  have "row_loop N ?B (py_range ?B) s =
    Inr (s\<lparr>board := foldl (\<lambda>b r. b[nat r := map Some (grid_line N ?B r)]) (board s) (py_range ?B),
           row := (if py_range ?B = [] then row s else grid_line N ?B (last (py_range ?B))),
           stdout := stdout s @ map (grid_line N ?B) (py_range ?B),
           assigned := assigned s @ concat (map (\<lambda>r. map (Pair r) (py_range ?B)) (py_range ?B))\<rparr>)"
    using N len rows by (intro row_loop_fold) (auto simp: in_py_range)
  moreover have "last (py_range ?B) = 4 * N + 4"
    using N last_py_range [of ?B] by simp
  moreover have "py_range ?B \<noteq> []"
    using N by (simp add: py_range_empty)
  ultimately show ?thesis
    by (simp add: run_def Let_def fold concat_pairs grid_def)
qed

lemma render_ok:
  assumes "0 \<le> N"
  shows "render N =
    Inr \<lparr>board = map (map Some) (grid N (4 * N + 5)),
         row = grid_line N (4 * N + 5) (4 * N + 4),
         stdout = grid N (4 * N + 5),
         assigned = List.product (py_range (4 * N + 5)) (py_range (4 * N + 5))\<rparr>"
  using assms by (simp add: render_def run_ok init_def)

lemma render_fault: "render (- 1) = Inl ZeroDivisionError"
  by (simp add: render_def run_def init_def py_range_def row_body_def cell_body_zero)

lemma render_negative: "N < - 1 \<Longrightarrow> render N = Inr (init (4 * N + 5))"
  by (simp add: render_def run_def py_range_def)

lemma stdout_of_ok: "0 \<le> N \<Longrightarrow> stdout_of N = Inr (grid N (4 * N + 5))"
  by (simp add: stdout_of_def render_ok)

lemma py_range_nth: "0 \<le> i \<Longrightarrow> i < B \<Longrightarrow> py_range B ! nat i = i"
  by (simp add: py_range_def)

lemma length_grid: "length (grid N B) = nat B"
  by (simp add: grid_def length_py_range)

lemma length_grid_line: "length (grid_line N B r) = nat B"
  by (simp add: grid_line_def length_py_range)

lemma grid_nth: "0 \<le> r \<Longrightarrow> r < B \<Longrightarrow> grid N B ! nat r = grid_line N B r"
  by (simp add: grid_def length_py_range py_range_nth)

lemma grid_line_nth: "0 \<le> c \<Longrightarrow> c < B \<Longrightarrow> grid_line N B r ! nat c = cell_char N r c"
  by (simp add: grid_line_def length_py_range py_range_nth)

lemma cell_char_rule: "0 \<le> N \<Longrightarrow> cell_char N r c = rule_4_1 N r c"
proof -
  assume "0 \<le> N"
  then have "0 \<le> c mod (N + 1)" by simp
  then have "c mod (N + 1) > 0 \<longleftrightarrow> c mod (N + 1) \<noteq> 0" by linarith
  then show ?thesis by (simp add: cell_char_def rule_4_1_def)
qed

section \<open>Shape and contents of the output\<close>

text \<open>
  Claim C3. For every \<open>N \<ge> 0\<close> the run succeeds and writes exactly \<open>B = 4 * N + 5\<close>
  lines, every line has exactly \<open>B\<close> characters, and the character in row \<open>r\<close> and
  column \<open>c\<close> is the one the per-cell rule of section 4.1 gives. At \<open>N = 2\<close> these
  are 13 lines of 13 characters.
\<close>

theorem render_follows_rule:
  assumes "0 \<le> N"
  shows "\<exists>ls. stdout_of N = Inr ls \<and> length ls = nat (4 * N + 5) \<and>
           (\<forall>l \<in> set ls. length l = nat (4 * N + 5)) \<and>
           (\<forall>r c. 0 \<le> r \<and> r < 4 * N + 5 \<and> 0 \<le> c \<and> c < 4 * N + 5 \<longrightarrow>
                  ls ! nat r ! nat c = rule_4_1 N r c)"
proof (intro exI conjI)
  show "stdout_of N = Inr (grid N (4 * N + 5))"
    using assms by (rule stdout_of_ok)
  show "length (grid N (4 * N + 5)) = nat (4 * N + 5)"
    by (rule length_grid)
  show "\<forall>l \<in> set (grid N (4 * N + 5)). length l = nat (4 * N + 5)"
    by (auto simp: grid_def length_grid_line)
  show "\<forall>r c. 0 \<le> r \<and> r < 4 * N + 5 \<and> 0 \<le> c \<and> c < 4 * N + 5 \<longrightarrow>
          grid N (4 * N + 5) ! nat r ! nat c = rule_4_1 N r c"
    using assms by (simp add: grid_nth grid_line_nth cell_char_rule)
qed

theorem render_follows_rule_witness:
  "(0::int) \<le> 2 \<and>
   (\<exists>ls. stdout_of 2 = Inr ls \<and> length ls = 13 \<and> (\<forall>l \<in> set ls. length l = 13) \<and>
      (\<forall>r c. 0 \<le> r \<and> r < 13 \<and> 0 \<le> c \<and> c < 13 \<longrightarrow> ls ! nat r ! nat c = rule_4_1 2 r c))"
  using render_follows_rule [of 2] by simp

text \<open>
  Claim C4. For every \<open>N \<ge> 0\<close> and every row \<open>r\<close> of the output with
  \<open>r mod (N + 1) = 0\<close>, each of the \<open>B\<close> characters of line \<open>r\<close> is \<open>+\<close> or \<open>-\<close>.
\<close>

theorem separator_rows_only_border:
  assumes "0 \<le> N" and "0 \<le> r" and "r < 4 * N + 5" and "r mod (N + 1) = 0"
  shows "\<exists>ls. stdout_of N = Inr ls \<and> length (ls ! nat r) = nat (4 * N + 5) \<and>
           set (ls ! nat r) \<subseteq> {CHR ''+'', CHR ''-''}"
proof (intro exI conjI)
  show "stdout_of N = Inr (grid N (4 * N + 5))"
    using assms(1) by (rule stdout_of_ok)
  show "length (grid N (4 * N + 5) ! nat r) = nat (4 * N + 5)"
    using assms by (simp add: grid_nth length_grid_line)
  show "set (grid N (4 * N + 5) ! nat r) \<subseteq> {CHR ''+'', CHR ''-''}"
    using assms by (auto simp: grid_nth grid_line_def cell_char_def)
qed

theorem separator_rows_only_border_witness:
  "(0::int) \<le> 2 \<and> (0::int) \<le> 3 \<and> (3::int) < 4 * 2 + 5 \<and> (3::int) mod (2 + 1) = 0 \<and>
   (\<exists>ls. stdout_of 2 = Inr ls \<and> length (ls ! 3) = 13 \<and> set (ls ! 3) \<subseteq> {CHR ''+'', CHR ''-''})"
  using separator_rows_only_border [of 2 3] by simp

text \<open>
  Claim C5. For every \<open>N \<ge> 0\<close> and every row \<open>r\<close> of the output with
  \<open>r mod (N + 1) \<noteq> 0\<close>, line \<open>r\<close> begins with \<open>|\<close>, ends with \<open>|\<close>, and holds \<open>|\<close> in
  every column that is a multiple of \<open>N + 1\<close>.
\<close>

theorem content_rows_vertical_borders:
  assumes "0 \<le> N" and "0 \<le> r" and "r < 4 * N + 5" and "r mod (N + 1) \<noteq> 0"
  shows "\<exists>ls. stdout_of N = Inr ls \<and> ls ! nat r \<noteq> [] \<and>
           hd (ls ! nat r) = CHR ''|'' \<and> last (ls ! nat r) = CHR ''|'' \<and>
           (\<forall>c. 0 \<le> c \<and> c < 4 * N + 5 \<and> c mod (N + 1) = 0 \<longrightarrow> ls ! nat r ! nat c = CHR ''|'')"
proof -
  let ?B = "4 * N + 5"
  let ?l = "grid_line N ?B r"
  have len: "length ?l = nat ?B"
    by (rule length_grid_line)
  then have ne: "?l \<noteq> []"
    using assms(1) by auto
  have at: "?l ! nat c = CHR ''|''" if "0 \<le> c" "c < ?B" "c mod (N + 1) = 0" for c
    using that assms(4) by (simp add: grid_line_nth cell_char_def)
  have "hd ?l = ?l ! nat 0"
    using ne by (simp add: hd_conv_nth)
  also have "\<dots> = CHR ''|''"
    using assms(1) by (intro at) simp_all
  finally have first: "hd ?l = CHR ''|''" .
  have "nat ?B - 1 = nat (4 * N + 4)"
    using assms(1) by simp
  then have "last ?l = ?l ! nat (4 * N + 4)"
    using ne len by (simp add: last_conv_nth)
  also have "\<dots> = CHR ''|''"
  proof (rule at)
    have "4 * N + 4 = 4 * (N + 1)" by simp
    then show "(4 * N + 4) mod (N + 1) = 0" by (metis mod_mult_self1_is_0 mult.commute)
  qed (use assms(1) in simp_all)
  finally have final: "last ?l = CHR ''|''" .
  have "stdout_of N = Inr (grid N ?B)"
    using assms(1) by (rule stdout_of_ok)
  moreover have "grid N ?B ! nat r = ?l"
    using assms by (simp add: grid_nth)
  ultimately show ?thesis
    using ne first final at by auto
qed

theorem content_rows_vertical_borders_witness:
  "(0::int) \<le> 2 \<and> (0::int) \<le> 10 \<and> (10::int) < 4 * 2 + 5 \<and> (10::int) mod (2 + 1) \<noteq> 0 \<and>
   (\<exists>ls. stdout_of 2 = Inr ls \<and> ls ! 10 \<noteq> [] \<and>
           hd (ls ! 10) = CHR ''|'' \<and> last (ls ! 10) = CHR ''|'' \<and>
           (\<forall>c. 0 \<le> c \<and> c < 13 \<and> c mod 3 = 0 \<longrightarrow> ls ! 10 ! nat c = CHR ''|''))"
  using content_rows_vertical_borders [of 2 10] by simp

text \<open>
  Claim C6. For \<open>N = 0\<close> the run raises nothing and prints 5 lines of 5 characters,
  all of them border characters (every one is \<open>+\<close>, since every row and every column
  is a multiple of 1).
\<close>

theorem render_zero:
  "stdout_of 0 = Inr [''+++++'', ''+++++'', ''+++++'', ''+++++'', ''+++++'']"
  by code_simp

section \<open>The first line\<close>

lemma map_periodic:
  "0 < m \<Longrightarrow> map (\<lambda>i. g (i mod m)) [0..<k * m] = concat (replicate k (map g [0..<m]))"
proof (induction k)
  case 0
  then show ?case by simp
next
  case (Suc k)
  have split: "[0..<k * m + m] = [0..<k * m] @ map (\<lambda>i. i + k * m) [0..<m]"
    by (simp only: upt_add_eq_append [OF le0] map_add_upt add.commute [of m "k * m"] add_0)
  have blk: "map (\<lambda>i. g (i mod m)) (map (\<lambda>i. i + k * m) [0..<m]) = map g [0..<m]"
    by (simp add: comp_def)
  have "map (\<lambda>i. g (i mod m)) [0..<Suc k * m] = map (\<lambda>i. g (i mod m)) [0..<k * m + m]"
    by (simp add: add.commute)
  also have "\<dots> = map (\<lambda>i. g (i mod m)) [0..<k * m] @ map g [0..<m]"
    by (simp only: split map_append blk)
  also have "\<dots> = concat (replicate k (map g [0..<m])) @ map g [0..<m]"
    using Suc by simp
  also have "\<dots> = concat (replicate k (map g [0..<m]) @ [map g [0..<m]])"
    by simp
  also have "replicate k (map g [0..<m]) @ [map g [0..<m]] = replicate (Suc k) (map g [0..<m])"
    by (simp only: replicate_append_same replicate_Suc)
  finally show ?case .
qed

lemma separator_block:
  "map (\<lambda>j. if j = 0 then CHR ''+'' else CHR ''-'') [0..<Suc n] = CHR ''+'' # replicate n CHR ''-''"
proof -
  have "[0..<Suc n] = 0 # map Suc [0..<n]"
    by (simp add: upt_conv_Cons map_Suc_upt del: upt_Suc)
  then show ?thesis
    by (simp add: comp_def map_replicate_const del: upt_Suc)
qed

lemma head_line: "xs \<noteq> [] \<Longrightarrow> (case xs of [] \<Rightarrow> None | l # _ \<Rightarrow> Some l) = Some (xs ! 0)"
  by (cases xs) simp_all

lemma separator_line:
  assumes "0 \<le> N"
  shows "grid_line N (4 * N + 5) 0 = separator_pattern N"
proof -
  define n where "n = nat N"
  let ?g = "\<lambda>j::nat. if j = 0 then CHR ''+'' else CHR ''-''"
  have N: "N = int n" using assms by (simp add: n_def)
  have B: "nat (4 * N + 5) = Suc (4 * Suc n)" by (simp add: N)
  have ch: "cell_char N 0 (int i) = ?g (i mod Suc n)" for i
  proof -
    have "int i mod (N + 1) = int (i mod Suc n)"
      by (simp add: N zmod_int add.commute)
    then show ?thesis by (simp add: cell_char_def)
  qed
  have "grid_line N (4 * N + 5) 0 = map (\<lambda>i. ?g (i mod Suc n)) [0..<Suc (4 * Suc n)]"
    by (simp add: grid_line_def py_range_def B comp_def ch del: upt_Suc)
  also have "\<dots> = map (\<lambda>i. ?g (i mod Suc n)) [0..<4 * Suc n] @ [?g ((4 * Suc n) mod Suc n)]"
    by (simp only: upt_Suc_append [OF le0] map_append list.map)
  also have "?g ((4 * Suc n) mod Suc n) = CHR ''+''"
    by (simp only: mod_mult_self2_is_0 simp_thms if_True)
  also have "map (\<lambda>i. ?g (i mod Suc n)) [0..<4 * Suc n] = concat (replicate 4 (map ?g [0..<Suc n]))"
    by (rule map_periodic) simp
  also have "map ?g [0..<Suc n] = CHR ''+'' # replicate n CHR ''-''"
    by (rule separator_block)
  finally show ?thesis
    by (simp add: separator_pattern_def n_def)
qed


text \<open>
  Claim C2, as stated, fails: for \<open>N = 2\<close> the first line printed is not
  \<open>+---+---+---+\<close>. That string has three dashes in a group; the code prints \<open>N = 2\<close>
  dashes between two \<open>+\<close>.
\<close>

theorem first_line_not_three_dashes:
  "first_line 2 \<noteq> Inr (Some ''+---+---+---+'')"
  by code_simp

text \<open>
  Claim C2, amended. For \<open>N = 2\<close> the first line printed is \<open>+--+--+--+--+\<close>, the
  instance of the general pattern for \<open>N \<ge> 0\<close>: \<open>+\<close> followed by \<open>N\<close> dashes, four
  times, and a closing \<open>+\<close>.
\<close>

theorem first_line_pattern:
  "first_line 2 = Inr (Some ''+--+--+--+--+'') \<and>
   (0 \<le> N \<longrightarrow> first_line N = Inr (Some (separator_pattern N)))"
proof
  show "first_line 2 = Inr (Some ''+--+--+--+--+'')"
    by code_simp
  show "0 \<le> N \<longrightarrow> first_line N = Inr (Some (separator_pattern N))"
  proof
    assume N: "0 \<le> N"
    have "grid N (4 * N + 5) \<noteq> []"
      using N length_grid [of N "4 * N + 5"] by auto
    moreover have "grid N (4 * N + 5) ! nat 0 = grid_line N (4 * N + 5) 0"
      using N by (intro grid_nth) simp_all
    ultimately show "first_line N = Inr (Some (separator_pattern N))"
      using N by (simp add: first_line_def stdout_of_ok head_line separator_line)
  qed
qed

theorem first_line_pattern_witness:
  "(0::int) \<le> 2 \<and> first_line 2 = Inr (Some (separator_pattern 2)) \<and>
   separator_pattern 2 = ''+--+--+--+--+''"
  using first_line_pattern [of 2] by (simp add: separator_pattern_def numeral_eq_Suc)

section \<open>Failure\<close>

text \<open>
  Claim C7, as stated, fails. It says a division or modulo fault occurs for every
  \<open>N\<close> with \<open>N + 1 \<le> 0\<close>. At \<open>N = - 2\<close> the extent is \<open>4 * (- 2) + 5 = - 3\<close>,
  \<open>range(- 3)\<close> is empty, the matrix is the empty list, no loop body runs and the
  script ends normally with nothing printed.
\<close>

theorem negative_dimension_no_fault:
  "(- 2 :: int) + 1 \<le> 0 \<and>
   render (- 2) = Inr \<lparr>board = [], row = [], stdout = [], assigned = []\<rparr>"
  by (simp add: render_negative init_def)

text \<open>
  Claim C7, amended. The run raises exactly when \<open>N + 1 = 0\<close>, and the error is then
  \<open>ZeroDivisionError\<close>, raised by the first test of the first cell. For every other
  \<open>N\<close>, in particular for every \<open>N \<ge> 0\<close>, the run returns a final state: neither a
  division nor a subscript raises. For \<open>N + 1 < 0\<close> it returns with nothing printed.
\<close>

theorem fault_iff_divisor_zero:
  "(N + 1 = 0 \<longrightarrow> render N = Inl ZeroDivisionError) \<and>
   (N + 1 \<noteq> 0 \<longrightarrow> (\<exists>s. render N = Inr s)) \<and>
   (N + 1 < 0 \<longrightarrow> stdout_of N = Inr [])"
proof (intro conjI impI)
  assume "N + 1 = 0"
  then have "N = - 1" by simp
  then show "render N = Inl ZeroDivisionError"
    by (simp add: render_fault)
next
  assume "N + 1 \<noteq> 0"
  then consider "0 \<le> N" | "N < - 1" by linarith
  then show "\<exists>s. render N = Inr s"
  proof cases
    case 1
    then show ?thesis by (simp add: render_ok)
  next
    case 2
    then show ?thesis by (simp add: render_negative)
  qed
next
  assume "N + 1 < 0"
  then have "N < - 1" by simp
  then show "stdout_of N = Inr []"
    by (simp add: stdout_of_def render_negative init_def)
qed

theorem fault_iff_divisor_zero_witness:
  "render (- 1) = Inl ZeroDivisionError \<and> (\<exists>s. render 2 = Inr s) \<and> stdout_of (- 2) = Inr []"
  using fault_iff_divisor_zero [of "- 1"] fault_iff_divisor_zero [of 2]
    fault_iff_divisor_zero [of "- 2"]
  by simp

section \<open>Determinism\<close>

text \<open>
  Claim C8. The output is a function of \<open>N\<close> alone. \<open>render N\<close> is a value of \<open>N\<close>,
  and the loops read nothing of the state they start in: started in any two states
  whose boards are \<open>B\<close> by \<open>B\<close>, whatever the cells, \<open>row\<close> and earlier output are,
  both runs return, append the same lines to standard output and leave the same
  board and the same \<open>row\<close>.
\<close>

theorem output_independent_of_state:
  assumes "0 \<le> N" and "board_ok (4 * N + 5) s1" and "board_ok (4 * N + 5) s2"
  shows "\<exists>t1 t2 L. run N s1 = Inr t1 \<and> run N s2 = Inr t2 \<and>
           stdout t1 = stdout s1 @ L \<and> stdout t2 = stdout s2 @ L \<and>
           board t1 = board t2 \<and> row t1 = row t2"
  using assms by (simp add: board_ok_def run_ok)

theorem output_independent_of_state_witness:
  "(0::int) \<le> 0 \<and> board_ok 5 (init 5) \<and>
   board_ok 5 \<lparr>board = replicate 5 (replicate 5 (Some CHR ''x'')), row = ''zz'',
               stdout = [''old''], assigned = []\<rparr> \<and>
   (\<exists>t1 t2 L. run 0 (init 5) = Inr t1 \<and>
      run 0 \<lparr>board = replicate 5 (replicate 5 (Some CHR ''x'')), row = ''zz'',
             stdout = [''old''], assigned = []\<rparr> = Inr t2 \<and>
      stdout t1 = stdout (init 5) @ L \<and> stdout t2 = [''old''] @ L \<and>
      board t1 = board t2 \<and> row t1 = row t2)"
proof -
  let ?s2 = "\<lparr>board = replicate 5 (replicate 5 (Some CHR ''x'')), row = ''zz'',
               stdout = [''old''], assigned = []\<rparr>"
  have a: "board_ok (4 * 0 + 5) (init 5)"
    by (simp add: board_ok_def init_def)
  have b: "board_ok (4 * 0 + 5) ?s2"
    by (simp add: board_ok_def)
  show ?thesis
    using output_independent_of_state [OF _ a b] a b by simp
qed

section \<open>The board and the output\<close>

lemma distinct_py_range: "distinct (py_range B)"
  by (simp add: py_range_def distinct_map inj_on_def)

lemma set_py_range: "set (py_range B) = {0..<B}"
  by (auto simp: in_py_range)

text \<open>
  Claim C9. For every \<open>N \<ge> 0\<close> the final board has \<open>B\<close> rows, \<open>B\<close> lines were
  printed, and for every row \<open>r\<close> the board row is, cell by cell, the printed line of
  \<open>B\<close> characters, so no cell is left \<open>None\<close>. The log of assignments has no
  repetition and its entries are exactly the pairs \<open>(r, c)\<close> with \<open>0 \<le> r, c < B\<close>:
  every cell is assigned exactly once.
\<close>

theorem board_matches_output:
  assumes "0 \<le> N"
  shows "\<exists>s. render N = Inr s \<and>
           length (board s) = nat (4 * N + 5) \<and> length (stdout s) = nat (4 * N + 5) \<and>
           (\<forall>r. 0 \<le> r \<and> r < 4 * N + 5 \<longrightarrow>
                length (stdout s ! nat r) = nat (4 * N + 5) \<and>
                board s ! nat r = map Some (stdout s ! nat r)) \<and>
           distinct (assigned s) \<and>
           set (assigned s) = {0..<4 * N + 5} \<times> {0..<4 * N + 5}"
proof -
  let ?B = "4 * N + 5"
  let ?s = "\<lparr>board = map (map Some) (grid N ?B), row = grid_line N ?B (4 * N + 4),
         stdout = grid N ?B, assigned = List.product (py_range ?B) (py_range ?B)\<rparr>"
  have "render N = Inr ?s"
    using assms by (rule render_ok)
  moreover have "length (board ?s) = nat ?B" "length (stdout ?s) = nat ?B"
    by (simp_all add: length_grid)
  moreover have "\<forall>r. 0 \<le> r \<and> r < ?B \<longrightarrow>
      length (stdout ?s ! nat r) = nat ?B \<and> board ?s ! nat r = map Some (stdout ?s ! nat r)"
    by (simp add: length_grid grid_nth length_grid_line)
  moreover have "distinct (assigned ?s)"
    by (simp add: distinct_product distinct_py_range)
  moreover have "set (assigned ?s) = {0..<?B} \<times> {0..<?B}"
    by (simp add: set_py_range)
  ultimately show ?thesis by blast
qed

theorem board_matches_output_witness:
  "(0::int) \<le> 2 \<and>
   (\<exists>s. render 2 = Inr s \<and> length (board s) = 13 \<and> length (stdout s) = 13 \<and>
      (\<forall>r. 0 \<le> r \<and> r < 13 \<longrightarrow>
           length (stdout s ! nat r) = 13 \<and> board s ! nat r = map Some (stdout s ! nat r)) \<and>
      distinct (assigned s) \<and> set (assigned s) = {0..<13} \<times> {0..<13})"
  using board_matches_output [of 2] by simp

end
